theory Spec2Isabelle
  imports Complex_Main "HOL-Library.Multiset"
begin

section \<open>Library organizer: data model\<close>

text \<open>
  An inventory record is the dictionary \<^verbatim>\<open>csv.DictReader\<close> yields for one row: the
  keys are the column names of the header, and a value is a string, or \<^verbatim>\<open>None\<close>
  when the row is shorter than the header. Strings are lists of 8-bit characters; the
  model reads them as ASCII text.
\<close>

datatype pyval = PNone | PStr string

type_synonym item = "string \<rightharpoonup> pyval"

datatype error = KeyError | AttributeError | ZeroDivisionError

text \<open>\<^verbatim>\<open>SHELF_DIMENSIONS\<close>, in the insertion order of the dictionary.\<close>

record dims =
  d_rows :: int
  d_width :: int
  d_depth :: int

definition SHELF_DIMENSIONS :: "(string \<times> dims) list" where
  "SHELF_DIMENSIONS =
     [(''office_a'', \<lparr>d_rows = 5, d_width = 32, d_depth = 26\<rparr>),
      (''office_b'', \<lparr>d_rows = 4, d_width = 32, d_depth = 26\<rparr>),
      (''dining'', \<lparr>d_rows = 3, d_width = 24, d_depth = 24\<rparr>),
      (''hallway'', \<lparr>d_rows = 2, d_width = 16, d_depth = 16\<rparr>),
      (''crate_h'', \<lparr>d_rows = 1, d_width = 32, d_depth = 12\<rparr>),
      (''crate_v'', \<lparr>d_rows = 1, d_width = 12, d_depth = 32\<rparr>)]"

text \<open>\<^verbatim>\<open>ORGANIZATION\<close>: the row names of every shelf.\<close>

definition ORGANIZATION :: "(string \<times> (int \<times> string) list) list" where
  "ORGANIZATION =
     [(''office_a'',
        [(1, ''Core Language Learning''),
         (2, ''Essential Programming & Math''),
         (3, ''Core Science Textbooks''),
         (4, ''Essential Philosophy''),
         (5, ''Professional Writing & Development'')]),
      (''office_b'',
        [(1, ''Philosophy & Political Thought''),
         (2, ''Academic Textbooks & References''),
         (3, ''Essays & Collections''),
         (4, ''Gaming & Strategy'')]),
      (''dining'',
        [(1, ''Japanese Language & Asian Cooking''),
         (2, ''Chinese Language & Global Cooking''),
         (3, ''Other Languages & Kitchen References'')]),
      (''hallway'',
        [(1, ''History & Historical Works''),
         (2, ''Literature, Fiction & Classics'')]),
      (''crate_h'', [(1, ''General Overflow Storage'')]),
      (''crate_v'', [(1, ''Mathematics, Science & References'')])]"

section \<open>Width estimate\<close>

text \<open>
  Widths are Python floats in the source. Every width the program produces is a
  multiple of a quarter inch, and sums of such values are exact in binary floating
  point, so widths are modelled as rationals.

  \<^verbatim>\<open>estimate_book_width(pages: Optional[int]) -> float\<close>. The first test of the
  source, \<^verbatim>\<open>not pages or pages <= 0\<close>, holds for \<^verbatim>\<open>None\<close>, for \<^verbatim>\<open>0\<close> and for negative
  counts.
\<close>

definition estimate_book_width :: "int option \<Rightarrow> rat" where
  "estimate_book_width pages =
     (case pages of
        None \<Rightarrow> 1
      | Some p \<Rightarrow>
          if p = 0 \<or> p \<le> 0 then 1
          else if p \<le> 100 then 1 / 2
          else if p \<le> 200 then 3 / 4
          else if p \<le> 300 then 1
          else if p \<le> 500 then 5 / 4
          else if p \<le> 750 then 3 / 2
          else 2)"

section \<open>Strings\<close>

text \<open>\<^verbatim>\<open>str.lower()\<close> on ASCII text.\<close>

definition lower_char :: "char \<Rightarrow> char" where
  "lower_char c =
     (case map_of (zip ''ABCDEFGHIJKLMNOPQRSTUVWXYZ'' ''abcdefghijklmnopqrstuvwxyz'') c of
        Some l \<Rightarrow> l
      | None \<Rightarrow> c)"

definition lower :: "string \<Rightarrow> string" where
  "lower s = map lower_char s"

text \<open>\<^verbatim>\<open>word in combined\<close>: substring containment.\<close>

fun starts_with :: "string \<Rightarrow> string \<Rightarrow> bool" where
  "starts_with s [] = True"
| "starts_with [] (a # w) = False"
| "starts_with (b # s) (a # w) = (a = b \<and> starts_with s w)"

fun contains :: "string \<Rightarrow> string \<Rightarrow> bool" where
  "contains [] w = (w = [])"
| "contains (c # s) w = (starts_with (c # s) w \<or> contains s w)"

text \<open>\<^verbatim>\<open>any(word in combined for word in words)\<close>.\<close>

definition any_in :: "string \<Rightarrow> string list \<Rightarrow> bool" where
  "any_in combined ws = list_ex (contains combined) ws"

text \<open>
  The four text fields as both classifiers prepare them: \<^verbatim>\<open>title.lower()\<close> is
  unguarded and raises AttributeError on \<^verbatim>\<open>None\<close>; the other three fields are
  guarded by \<^verbatim>\<open>x.lower() if x else ""\<close>.
\<close>

definition lower_or_empty :: "pyval \<Rightarrow> string" where
  "lower_or_empty x = (case x of PNone \<Rightarrow> [] | PStr s \<Rightarrow> if s = [] then [] else lower s)"

definition combined_text :: "pyval \<Rightarrow> pyval \<Rightarrow> pyval \<Rightarrow> pyval \<Rightarrow> error + string" where
  "combined_text title tags grp description =
     (case title of
        PNone \<Rightarrow> Inl AttributeError
      | PStr t \<Rightarrow>
          Inr (lower t @ '' '' @ lower_or_empty tags @ '' '' @ lower_or_empty grp
                 @ '' '' @ lower_or_empty description))"

section \<open>Shelf classifiers\<close>

text \<open>The rule chain of \<^verbatim>\<open>categorize_book\<close> on the combined text.\<close>

definition categorize_rules :: "string \<Rightarrow> string \<times> int" where
  "categorize_rules combined =
     (if any_in combined [''genki'', ''tobira'', ''integrated chinese'', ''kanji for international'']
      then (''office_a'', 1)
      else if any_in combined [''algorithms'', ''clean code'', ''programming language'', ''knuth'',
                               ''art of computer'']
      then (''office_a'', 2)
      else if any_in combined [''physics'', ''chemistry''] \<and> contains combined ''textbook''
      then (''office_a'', 3)
      else if any_in combined [''kant'', ''groundwork'', ''nietzsche'', ''republic'', ''analects'']
      then (''office_a'', 4)
      else if any_in combined [''writer'' @ [CHR 0x27] @ ''s reference'', ''writing'', ''professional'']
      then (''office_a'', 5)
      else if any_in combined [''japanese'', ''chinese'', ''korean'', ''language'', ''dictionary'',
                               ''grammar'']
              \<and> \<not> contains combined ''cooking''
      then (if contains combined ''japanese'' \<or> contains combined ''kanji'' then (''dining'', 1)
            else if contains combined ''chinese'' then (''dining'', 2)
            else (''dining'', 3))
      else if any_in combined [''history'', ''historical'', ''revolution'', ''war'', ''ancient'',
                               ''medieval'']
      then (''hallway'', 1)
      else if any_in combined [''dover'', ''classics'', ''poetry'', ''shakespeare'', ''literature'',
                               ''fiction'', ''novel'']
      then (''hallway'', 2)
      else if any_in combined [''mathematics'', ''math'', ''dover'', ''logic'', ''science'',
                               ''reference'']
      then (''crate_v'', 1)
      else if any_in combined [''game'', ''gaming'', ''rpg'', ''d&d'', ''strategy'', ''chess'']
      then (''office_b'', 4)
      else if any_in combined [''philosophy'', ''political'', ''ethics'', ''tao'']
      then (''office_b'', 1)
      else if any_in combined [''textbook'', ''academic'', ''university'']
      then (''office_b'', 2)
      else if any_in combined [''uncle john'', ''essay'', ''anthology'', ''collection'']
      then (''office_b'', 3)
      else if any_in combined [''cooking'', ''cook'', ''food'', ''recipe'', ''kitchen'', ''culinary'']
      then (if any_in combined [''asian'', ''japanese'', ''chinese'', ''sushi'', ''wok'']
            then (''dining'', 1)
            else if any_in combined [''bittman'', ''international'', ''global'']
            then (''dining'', 2)
            else (''dining'', 3))
      else (''crate_h'', 1))"

definition categorize_book ::
  "pyval \<Rightarrow> pyval \<Rightarrow> pyval \<Rightarrow> pyval \<Rightarrow> item \<Rightarrow> error + string \<times> int" where
  "categorize_book title tags grp description item =
     (case combined_text title tags grp description of
        Inl e \<Rightarrow> Inl e
      | Inr combined \<Rightarrow> Inr (categorize_rules combined))"

text \<open>The rule chain of \<^verbatim>\<open>balanced_categorize_book\<close>.\<close>

definition balanced_rules :: "string \<Rightarrow> string \<times> int" where
  "balanced_rules combined =
     (if any_in combined [''genki i'', ''genki ii'', ''tobira'', ''clean code'']
      then (''office_a'', 1)
      else if any_in combined [''algorithms'', ''art of computer'', ''programming language'']
      then (''office_a'', 2)
      else if any_in combined [''physics'', ''chemistry''] \<and> contains combined ''textbook''
      then (''office_a'', 3)
      else if any_in combined [''kant'', ''groundwork'', ''republic'']
      then (''office_a'', 4)
      else if any_in combined [''writer'' @ [CHR 0x27] @ ''s reference'', ''writing'']
      then (''office_a'', 5)
      else if any_in combined [''programming'', ''computer'', ''software'', ''math'']
      then (''office_b'', 1)
      else if any_in combined [''philosophy'', ''political'', ''ethics'']
      then (''office_b'', 2)
      else if any_in combined [''reference'', ''textbook'', ''academic'']
      then (''office_b'', 3)
      else if any_in combined [''game'', ''gaming'', ''rpg'', ''chess'', ''strategy'']
      then (''office_b'', 4)
      else if any_in combined [''cooking'', ''cook'', ''food'', ''recipe'', ''kitchen'']
      then (''dining'', 1)
      else if any_in combined [''japanese'', ''kanji''] \<and> \<not> contains combined ''cooking''
      then (''dining'', 2)
      else if any_in combined [''chinese'', ''korean'', ''language'']
              \<and> \<not> contains combined ''cooking''
      then (''dining'', 3)
      else if any_in combined [''fiction'', ''novel'', ''poetry'']
      then (''hallway'', 1)
      else if any_in combined [''uncle john'', ''essay'', ''anthology'']
      then (''hallway'', 2)
      else if any_in combined [''history'', ''historical'', ''war'', ''revolution'']
      then (''crate_h'', 1)
      else if any_in combined [''dover'', ''classics'', ''literature'']
              \<and> \<not> contains combined ''japanese''
      then (''crate_v'', 1)
      else (''office_b'', 2))"

definition balanced_categorize_book ::
  "pyval \<Rightarrow> pyval \<Rightarrow> pyval \<Rightarrow> pyval \<Rightarrow> item \<Rightarrow> error + string \<times> int" where
  "balanced_categorize_book title tags grp description item =
     (case combined_text title tags grp description of
        Inl e \<Rightarrow> Inl e
      | Inr combined \<Rightarrow> Inr (balanced_rules combined))"

section \<open>Page counts\<close>

text \<open>
  Python's \<^verbatim>\<open>int(s)\<close> on an ASCII string: surrounding whitespace is stripped, one sign
  is allowed, and the digits may be separated by single underscores. More than 4300
  digits, the interpreter's default limit, are refused. \<open>None\<close> stands for ValueError.
  The whitespace is space, tab, line feed, vertical tab, form feed and carriage return.
\<close>

definition is_space :: "char \<Rightarrow> bool" where
  "is_space c \<longleftrightarrow> c \<in> set [CHR '' '', CHR 0x09, CHR 0x0A, CHR 0x0B, CHR 0x0C, CHR 0x0D]"

definition strip :: "string \<Rightarrow> string" where
  "strip s = rev (dropWhile is_space (rev (dropWhile is_space s)))"

definition digit_value :: "char \<Rightarrow> int option" where
  "digit_value c = map_of (zip ''0123456789'' [0, 1, 2, 3, 4, 5, 6, 7, 8, 9]) c"

fun more_digits :: "int \<Rightarrow> string \<Rightarrow> int option" where
  "more_digits acc [] = Some acc"
| "more_digits acc [c] =
     (case digit_value c of Some d \<Rightarrow> Some (10 * acc + d) | None \<Rightarrow> None)"
| "more_digits acc (c # c' # cs) =
     (case digit_value c of
        Some d \<Rightarrow> more_digits (10 * acc + d) (c' # cs)
      | None \<Rightarrow>
          if c = CHR ''_'' then
            (case digit_value c' of
               Some d \<Rightarrow> more_digits (10 * acc + d) cs
             | None \<Rightarrow> None)
          else None)"

definition unsigned_int :: "string \<Rightarrow> int option" where
  "unsigned_int s =
     (if 4300 < length (filter (\<lambda>c. digit_value c \<noteq> None) s) then None
      else
        (case s of
           [] \<Rightarrow> None
         | c # cs \<Rightarrow> (case digit_value c of Some d \<Rightarrow> more_digits d cs | None \<Rightarrow> None)))"

definition py_int :: "string \<Rightarrow> int option" where
  "py_int s =
     (case strip s of
        [] \<Rightarrow> None
      | c # cs \<Rightarrow>
          if c = CHR ''-'' then map_option uminus (unsigned_int cs)
          else if c = CHR ''+'' then unsigned_int cs
          else unsigned_int (c # cs))"

text \<open>
  The page count of a record, as \<^verbatim>\<open>calculate_space_usage\<close> reads it:
  \<^verbatim>\<open>int(item.get('length', 0) or 0)\<close>, with 0 when the conversion raises.
\<close>

definition item_pages :: "item \<Rightarrow> int" where
  "item_pages item =
     (case item ''length'' of
        None \<Rightarrow> 0
      | Some PNone \<Rightarrow> 0
      | Some (PStr s) \<Rightarrow>
          if s = [] then 0 else (case py_int s of Some n \<Rightarrow> n | None \<Rightarrow> 0))"

section \<open>Floating point\<close>

text \<open>
  Python floats are IEEE 754 doubles, and a finite double is a rational number.
  \<open>binary64 x\<close> is the double nearest to \<open>x\<close>, a tie going to the even mantissa: the
  result of one correctly rounded operation whose exact value is \<open>x\<close>. The mantissa is
  scaled into the 53-bit range and rounded there. Overflow and subnormal results are
  not modelled; a utilization percentage is far from both.
\<close>

function normalize_mantissa :: "rat \<Rightarrow> int \<Rightarrow> rat \<times> int" where
  "normalize_mantissa m e =
     (if m \<le> 0 then (m, e)
      else if 2 ^ 53 \<le> m then normalize_mantissa (m / 2) (e + 1)
      else if m < 2 ^ 52 then normalize_mantissa (m * 2) (e - 1)
      else (m, e))"
  by pat_completeness auto

termination
proof -
  have floor_half_less: "\<lfloor>y / 2\<rfloor> < \<lfloor>y\<rfloor>" if "1 \<le> y" for y :: rat
  proof -
    have f: "1 \<le> \<lfloor>y\<rfloor>" using that by (simp add: le_floor_iff)
    have "y < of_int \<lfloor>y\<rfloor> + 1" by linarith
    moreover have "(of_int \<lfloor>y\<rfloor> + 1) / 2 \<le> (of_int \<lfloor>y\<rfloor> :: rat)"
    proof -
      have "(1::rat) \<le> of_int \<lfloor>y\<rfloor>" using f by linarith
      then show ?thesis by simp
    qed
    moreover have "a < b + 1 \<Longrightarrow> (b + 1) / 2 \<le> b \<Longrightarrow> a / 2 < b" for a b :: rat
      by simp
    ultimately have "y / 2 < of_int \<lfloor>y\<rfloor>" by blast
    then show ?thesis by (simp only: floor_less_iff)
  qed
  have ceiling_half_less: "\<lceil>y / 2\<rceil> < \<lceil>y\<rceil>" if "1 < y" for y :: rat
  proof -
    have c: "2 \<le> \<lceil>y\<rceil>" using that by (simp add: less_ceiling_iff)
    have "y \<le> of_int \<lceil>y\<rceil>" by linarith
    moreover have "(of_int \<lceil>y\<rceil> :: rat) / 2 \<le> of_int (\<lceil>y\<rceil> - 1)"
    proof -
      have "(2::rat) \<le> of_int \<lceil>y\<rceil>" using c by linarith
      then show ?thesis by simp
    qed
    moreover have "a \<le> c \<Longrightarrow> c / 2 \<le> b \<Longrightarrow> a / 2 \<le> b" for a b c :: rat
      by simp
    ultimately have "y / 2 \<le> of_int (\<lceil>y\<rceil> - 1)" by blast
    then have "\<lceil>y / 2\<rceil> \<le> \<lceil>y\<rceil> - 1" by (simp only: ceiling_le_iff)
    then show ?thesis by linarith
  qed
  have measure_step: "nat a + nat c < nat b + nat d"
    if "a < b" and "0 \<le> a" and "c = d" for a b c d :: int
    using that by simp
  show ?thesis
  proof (relation "measure (\<lambda>(m, e). nat \<lfloor>m / 2 ^ 53\<rfloor> + nat \<lceil>2 ^ 52 / m\<rceil>)")
    show "wf (measure (\<lambda>(m, e). nat \<lfloor>m / 2 ^ 53\<rfloor> + nat \<lceil>2 ^ 52 / m\<rceil>))"
      by (rule wf_measure)
  next
    fix m :: rat and e :: int
    assume pos: "\<not> m \<le> 0" and big: "2 ^ 53 \<le> m"
    define y where "y = m / 2 ^ 53"
    define z where "z = 2 ^ 52 / m"
    have y: "1 \<le> y" using big by (simp add: y_def)
    have z: "0 < z" "z \<le> 1 / 2" using pos big by (simp_all add: z_def field_simps)
    have "\<lfloor>y / 2\<rfloor> < \<lfloor>y\<rfloor>" using y by (rule floor_half_less)
    moreover have "0 \<le> \<lfloor>y / 2\<rfloor>" using y by simp
    moreover have "\<lceil>z * 2\<rceil> = 1" using z by (simp only: ceiling_eq_iff) simp
    moreover have "\<lceil>z\<rceil> = 1" using z by (simp only: ceiling_eq_iff) simp
    ultimately have "nat \<lfloor>y / 2\<rfloor> + nat \<lceil>z * 2\<rceil> < nat \<lfloor>y\<rfloor> + nat \<lceil>z\<rceil>"
      by (intro measure_step) simp_all
    moreover have "m / 2 / 2 ^ 53 = y / 2" "2 ^ 52 / (m / 2) = z * 2"
      by (simp_all add: y_def z_def)
    ultimately show "((m / 2, e + 1), (m, e))
                       \<in> measure (\<lambda>(m, e). nat \<lfloor>m / 2 ^ 53\<rfloor> + nat \<lceil>2 ^ 52 / m\<rceil>)"
      by (simp only: in_measure prod.case y_def [symmetric] z_def [symmetric])
  next
    fix m :: rat and e :: int
    assume pos: "\<not> m \<le> 0" and nbig: "\<not> 2 ^ 53 \<le> m" and small: "m < 2 ^ 52"
    define y where "y = m / 2 ^ 53"
    define z where "z = 2 ^ 52 / m"
    have y: "0 \<le> y" "y < 1 / 2" using pos small by (simp_all add: y_def)
    have z: "1 < z" using pos small by (simp add: z_def)
    have "\<lceil>z / 2\<rceil> < \<lceil>z\<rceil>" using z by (rule ceiling_half_less)
    moreover have "0 \<le> \<lceil>z / 2\<rceil>" using z by simp
    moreover have "\<lfloor>y * 2\<rfloor> = 0" using y by (simp only: floor_eq_iff) simp
    moreover have "\<lfloor>y\<rfloor> = 0" using y by (simp only: floor_eq_iff) simp
    ultimately have "nat \<lceil>z / 2\<rceil> + nat \<lfloor>y * 2\<rfloor> < nat \<lceil>z\<rceil> + nat \<lfloor>y\<rfloor>"
      by (intro measure_step) simp_all
    then have "nat \<lfloor>y * 2\<rfloor> + nat \<lceil>z / 2\<rceil> < nat \<lfloor>y\<rfloor> + nat \<lceil>z\<rceil>"
      by (simp only: add.commute)
    moreover have "m * 2 / 2 ^ 53 = y * 2" "2 ^ 52 / (m * 2) = z / 2"
      by (simp_all add: y_def z_def)
    ultimately show "((m * 2, e - 1), (m, e))
                       \<in> measure (\<lambda>(m, e). nat \<lfloor>m / 2 ^ 53\<rfloor> + nat \<lceil>2 ^ 52 / m\<rceil>)"
      by (simp only: in_measure prod.case y_def [symmetric] z_def [symmetric])
  qed
qed

declare normalize_mantissa.simps [simp del]

definition round_half_even :: "rat \<Rightarrow> int" where
  "round_half_even x =
     (let f = \<lfloor>x\<rfloor>; r = x - of_int f
      in if r < 1 / 2 then f else if 1 / 2 < r then f + 1 else if even f then f else f + 1)"

definition binary64 :: "rat \<Rightarrow> rat" where
  "binary64 x =
     (if x = 0 then 0
      else
        (case normalize_mantissa \<bar>x\<bar> 0 of
           (m, e) \<Rightarrow>
             sgn x * of_int (round_half_even m) * (if 0 \<le> e then 2 ^ nat e else 1 / 2 ^ nat (- e))))"

section \<open>Space calculator\<close>

text \<open>\<^verbatim>\<open>item.get(key, default)\<close>.\<close>

definition get_or :: "item \<Rightarrow> string \<Rightarrow> pyval \<Rightarrow> pyval" where
  "get_or item key dflt = (case item key of None \<Rightarrow> dflt | Some v \<Rightarrow> v)"

text \<open>The dictionary appended to a row's \<^verbatim>\<open>items\<close> list for one book.\<close>

record book_entry =
  e_title :: pyval
  e_author :: pyval
  e_pages :: int
  e_width :: rat
  e_item :: item

record row_usage =
  r_width :: rat
  r_items :: "book_entry list"

record shelf_usage =
  s_rows :: "(int \<times> row_usage) list"
  s_total_width :: rat
  s_available_width :: int
  s_utilization :: rat

text \<open>
  The result dictionary, keyed by shelf identifier; the row dictionaries are keyed by row
  number. Both are association lists in insertion order.
\<close>

type_synonym usage = "(string \<times> shelf_usage) list"

text \<open>In-place update of the value stored under a key that is present.\<close>

fun modify_at :: "'k \<Rightarrow> ('v \<Rightarrow> 'v) \<Rightarrow> ('k \<times> 'v) list \<Rightarrow> ('k \<times> 'v) list" where
  "modify_at k f [] = []"
| "modify_at k f ((k', v) # al) =
     (if k' = k then (k', f v) # al else (k', v) # modify_at k f al)"

text \<open>The first loop of \<^verbatim>\<open>calculate_space_usage\<close>: one entry per configured shelf,
  with rows \<^verbatim>\<open>range(1, rows + 1)\<close>.\<close>

definition init_shelf :: "dims \<Rightarrow> shelf_usage" where
  "init_shelf d =
     \<lparr>s_rows = map (\<lambda>row_num. (row_num, \<lparr>r_width = 0, r_items = []\<rparr>)) [1..d_rows d],
      s_total_width = 0,
      s_available_width = d_width d * d_rows d,
      s_utilization = 0\<rparr>"

definition init_usage :: usage where
  "init_usage = map (\<lambda>(shelf_id, d). (shelf_id, init_shelf d)) SHELF_DIMENSIONS"

text \<open>
  \<^verbatim>\<open>shelf_usage[shelf_id]['rows'][row_num]['width'] += width\<close> followed by the
  \<^verbatim>\<open>append\<close>: a shelf or row that is not in the dictionary raises KeyError.
\<close>

definition add_to_row :: "book_entry \<Rightarrow> row_usage \<Rightarrow> row_usage" where
  "add_to_row e r = \<lparr>r_width = r_width r + e_width e, r_items = r_items r @ [e]\<rparr>"

definition place :: "usage \<Rightarrow> string \<Rightarrow> int \<Rightarrow> book_entry \<Rightarrow> error + usage" where
  "place su shelf_id row_num e =
     (case map_of su shelf_id of
        None \<Rightarrow> Inl KeyError
      | Some sh \<Rightarrow>
          (case map_of (s_rows sh) row_num of
             None \<Rightarrow> Inl KeyError
           | Some r \<Rightarrow>
               Inr (modify_at shelf_id
                      (\<lambda>sh. sh\<lparr>s_rows := modify_at row_num (add_to_row e) (s_rows sh)\<rparr>) su)))"

type_synonym categorizer =
  "pyval \<Rightarrow> pyval \<Rightarrow> pyval \<Rightarrow> pyval \<Rightarrow> item \<Rightarrow> error + string \<times> int"

text \<open>The body of the loop over the items. \<^verbatim>\<open>item['item_type']\<close> raises KeyError
  when the key is missing.\<close>

definition add_item :: "categorizer \<Rightarrow> usage \<Rightarrow> item \<Rightarrow> error + usage" where
  "add_item categorizer_func su item =
     (case item ''item_type'' of
        None \<Rightarrow> Inl KeyError
      | Some kind \<Rightarrow>
          if kind = PStr ''book'' then
            (case categorizer_func (get_or item ''title'' (PStr [])) (get_or item ''tags'' (PStr []))
                    (get_or item ''group'' (PStr [])) (get_or item ''description'' (PStr [])) item of
               Inl e \<Rightarrow> Inl e
             | Inr (shelf_id, row_num) \<Rightarrow>
                 (let pages = item_pages item;
                      width = estimate_book_width (Some pages)
                  in place su shelf_id row_num
                       \<lparr>e_title = get_or item ''title'' (PStr ''Unknown''),
                        e_author = get_or item ''creators'' (PStr ''Unknown''),
                        e_pages = pages,
                        e_width = width,
                        e_item = item\<rparr>))
          else Inr su)"

fun add_items :: "categorizer \<Rightarrow> usage \<Rightarrow> item list \<Rightarrow> error + usage" where
  "add_items categorizer_func su [] = Inr su"
| "add_items categorizer_func su (item # items) =
     (case add_item categorizer_func su item of
        Inl e \<Rightarrow> Inl e
      | Inr su' \<Rightarrow> add_items categorizer_func su' items)"

text \<open>The last loop: totals and utilization. The division raises ZeroDivisionError on
  an available width of 0. The sum of the row widths is exact; the quotient and the
  product \<^verbatim>\<open>(total_width / available_width) * 100\<close> are each rounded to a double.\<close>

definition shelf_totals :: "shelf_usage \<Rightarrow> error + shelf_usage" where
  "shelf_totals sh =
     (let total_width = sum_list (map (\<lambda>(row_num, row). r_width row) (s_rows sh))
      in if s_available_width sh = 0 then Inl ZeroDivisionError
         else Inr (sh\<lparr>s_total_width := total_width,
                      s_utilization :=
                        binary64 (binary64 (total_width / of_int (s_available_width sh)) * 100)\<rparr>))"

fun totals :: "usage \<Rightarrow> error + usage" where
  "totals [] = Inr []"
| "totals ((shelf_id, sh) # su) =
     (case shelf_totals sh of
        Inl e \<Rightarrow> Inl e
      | Inr sh' \<Rightarrow> (case totals su of Inl e \<Rightarrow> Inl e | Inr su' \<Rightarrow> Inr ((shelf_id, sh') # su')))"

definition calculate_space_usage :: "item list \<Rightarrow> categorizer \<Rightarrow> error + usage" where
  "calculate_space_usage items categorizer_func =
     (case add_items categorizer_func init_usage items of
        Inl e \<Rightarrow> Inl e
      | Inr su \<Rightarrow> totals su)"

text \<open>\<^verbatim>\<open>iterative_balance\<close>: one pass with the balanced classifier; the iteration count
  returned is the constant 1.\<close>

definition iterative_balance :: "item list \<Rightarrow> error + usage \<times> nat" where
  "iterative_balance items =
     (case calculate_space_usage items balanced_categorize_book of
        Inl e \<Rightarrow> Inl e
      | Inr space_usage \<Rightarrow> Inr (space_usage, 1))"

section \<open>Report: utilization banner\<close>

text \<open>The band chosen in \<^verbatim>\<open>generate_html\<close> for every shelf of \<^verbatim>\<open>ORGANIZATION\<close>, from
  \<^verbatim>\<open>space_usage.get(shelf_id, {}).get('utilization', 0)\<close>.\<close>

definition status_class :: "rat \<Rightarrow> string" where
  "status_class utilization =
     (if utilization > 90 then ''over-capacity''
      else if utilization > 75 then ''near-capacity''
      else ''good-capacity'')"

definition shelf_utilization :: "usage \<Rightarrow> string \<Rightarrow> rat" where
  "shelf_utilization space_usage shelf_id =
     (case map_of space_usage shelf_id of None \<Rightarrow> 0 | Some usage \<Rightarrow> s_utilization usage)"

definition banners :: "usage \<Rightarrow> (string \<times> string) list" where
  "banners space_usage =
     map (\<lambda>(shelf_id, shelf_info). (shelf_id, status_class (shelf_utilization space_usage shelf_id)))
       ORGANIZATION"

section \<open>CSV ingestion\<close>

text \<open>
  Reading a file is an effect; the model takes what the reads produce. A file either
  fails to open, or it is a sequence of reader steps, each of which yields a row or
  raises. Steps after the first raise are never reached.
\<close>

datatype read_step = Yield item | Raise

datatype source_file = Unopenable | Opened "read_step list"

definition recognized :: "item \<Rightarrow> bool" where
  "recognized row \<longleftrightarrow>
     (case row ''item_type'' of
        None \<Rightarrow> False
      | Some v \<Rightarrow> v \<in> set [PStr ''book'', PStr ''videogame'', PStr ''music''])"

text \<open>The loop over the reader inside the \<^verbatim>\<open>try\<close>: the second component tells whether
  the \<^verbatim>\<open>except\<close> branch ran (and printed the error).\<close>

fun read_rows :: "item list \<Rightarrow> read_step list \<Rightarrow> item list \<times> bool" where
  "read_rows items [] = (items, False)"
| "read_rows items (Raise # steps) = (items, True)"
| "read_rows items (Yield row # steps) =
     read_rows (if recognized row then items @ [row] else items) steps"

definition parse_csv_file :: "source_file \<Rightarrow> item list \<times> bool" where
  "parse_csv_file f = (case f of Unopenable \<Rightarrow> ([], True) | Opened steps \<Rightarrow> read_rows [] steps)"

text \<open>The loop of \<^verbatim>\<open>main\<close> over the discovered files.\<close>

fun ingest :: "item list \<Rightarrow> source_file list \<Rightarrow> item list" where
  "ingest all_items [] = all_items"
| "ingest all_items (csv_file # csv_files) =
     ingest (all_items @ fst (parse_csv_file csv_file)) csv_files"

text \<open>\<^verbatim>\<open>[item for item in all_items if item['item_type'] == 'book']\<close>.\<close>

fun books_of :: "item list \<Rightarrow> error + item list" where
  "books_of [] = Inr []"
| "books_of (item # items) =
     (case item ''item_type'' of
        None \<Rightarrow> Inl KeyError
      | Some kind \<Rightarrow>
          (case books_of items of
             Inl e \<Rightarrow> Inl e
           | Inr books \<Rightarrow> Inr (if kind = PStr ''book'' then item # books else books)))"

text \<open>\<^verbatim>\<open>main\<close> up to the space usage handed to the renderer.\<close>

definition main_usage :: "source_file list \<Rightarrow> error + usage \<times> nat" where
  "main_usage csv_files =
     (case books_of (ingest [] csv_files) of
        Inl e \<Rightarrow> Inl e
      | Inr books \<Rightarrow> iterative_balance books)"

section \<open>Screenshot capture\<close>

text \<open>
  The browser and the console are effects; the model takes the outcome of each call the
  script makes on them: every \<^verbatim>\<open>print\<close>, constructing the driver, \<^verbatim>\<open>get\<close>, the
  readiness wait \<^verbatim>\<open>until\<close>, \<^verbatim>\<open>time.sleep\<close>, \<^verbatim>\<open>save_screenshot\<close> and \<^verbatim>\<open>quit\<close>. Each
  either returns or raises an exception. \<^verbatim>\<open>save_screenshot\<close> returns a boolean, false
  when the image could not be written; the script discards it. Building the option
  list of the driver touches neither the browser nor the console and is left out.
\<close>

datatype outcome = Returns | Raises

datatype save_outcome = SaveReturns bool | SaveRaises

text \<open>The \<^verbatim>\<open>print\<close> calls of the script, in program order: the usage line of \<^verbatim>\<open>main\<close>,
  the four lines before the \<^verbatim>\<open>try\<close> block, the four progress lines inside it, and
  the error line of the \<^verbatim>\<open>except\<close> branch.\<close>

datatype message =
  Usage | Description | Url | Wait | Output | Loading | Loaded | Waiting | Saved | Failed

record browser =
  b_print :: "message \<Rightarrow> outcome"
  b_chrome :: outcome
  b_get :: outcome
  b_until :: outcome
  b_sleep :: outcome
  b_save_screenshot :: save_outcome
  b_quit :: outcome

datatype raised = Raised

text \<open>The \<^verbatim>\<open>try\<close> block: its result is whether it reached \<^verbatim>\<open>return True\<close>; every
  exception inside it enters the \<^verbatim>\<open>except\<close> branch. \<^verbatim>\<open>time.sleep\<close> raises ValueError
  on a negative duration.\<close>

definition try_block :: "browser \<Rightarrow> int \<Rightarrow> bool" where
  "try_block b wait_seconds =
     (if b_chrome b = Raises then False
      else if b_print b Loading = Raises then False
      else if b_get b = Raises then False
      else if b_until b = Raises then False
      else if b_print b Loaded = Raises then False
      else if b_print b Waiting = Raises then False
      else if wait_seconds < 0 \<or> b_sleep b = Raises then False
      else if b_save_screenshot b = SaveRaises then False
      else if b_print b Saved = Raises then False
      else True)"

text \<open>
  The four lines before the \<^verbatim>\<open>try\<close> block are unprotected. The \<^verbatim>\<open>except\<close> branch
  prints the error line and returns \<^verbatim>\<open>False\<close>; an exception of that \<^verbatim>\<open>print\<close> leaves
  the function. The \<^verbatim>\<open>finally\<close> block runs \<^verbatim>\<open>driver.quit()\<close> when the driver was
  created; an exception it raises replaces the pending return value.
\<close>

definition capture_screenshot :: "browser \<Rightarrow> int \<Rightarrow> raised + bool" where
  "capture_screenshot b wait_seconds =
     (if b_print b Description = Raises \<or> b_print b Url = Raises
         \<or> b_print b Wait = Raises \<or> b_print b Output = Raises
      then Inl Raised
      else
        (let completed = try_block b wait_seconds;
             handler_raises = (\<not> completed \<and> b_print b Failed = Raises)
         in if b_chrome b = Returns \<and> b_quit b = Raises then Inl Raised
            else if handler_raises then Inl Raised
            else Inr completed))"




section \<open>Vocabulary of the statements\<close>

text \<open>A book is a record whose \<^verbatim>\<open>item_type\<close> is the string \<^verbatim>\<open>book\<close>; a non-book record
  has another kind.\<close>

definition is_book :: "item \<Rightarrow> bool" where
  "is_book item \<longleftrightarrow> item ''item_type'' = Some (PStr ''book'')"

definition non_book :: "item \<Rightarrow> bool" where
  "non_book item \<longleftrightarrow> (case item ''item_type'' of None \<Rightarrow> False | Some kind \<Rightarrow> kind \<noteq> PStr ''book'')"

text \<open>The width the calculator estimates for one record.\<close>

definition book_width :: "item \<Rightarrow> rat" where
  "book_width item = estimate_book_width (Some (item_pages item))"

text \<open>A record the calculator can process: it has a kind, and the title of a book is
  not \<^verbatim>\<open>None\<close>.\<close>

definition well_formed :: "item \<Rightarrow> bool" where
  "well_formed item \<longleftrightarrow>
     item ''item_type'' \<noteq> None \<and> (is_book item \<longrightarrow> item ''title'' \<noteq> Some PNone)"

text \<open>The sum of the row widths over all shelves, and the records stored in the rows of
  all shelves.\<close>

definition total_row_width :: "usage \<Rightarrow> rat" where
  "total_row_width su = (\<Sum>(shelf_id, sh) \<leftarrow> su. \<Sum>(row_num, row) \<leftarrow> s_rows sh. r_width row)"

definition placed_entries :: "usage \<Rightarrow> book_entry list" where
  "placed_entries su =
     concat (map (\<lambda>(shelf_id, sh). concat (map (\<lambda>(row_num, row). r_items row) (s_rows sh))) su)"

text \<open>The shape of a result: its shelves in order, each with its row numbers and its
  available width.\<close>

definition layout :: "usage \<Rightarrow> (string \<times> int list \<times> int) list" where
  "layout su = map (\<lambda>(shelf_id, sh). (shelf_id, map fst (s_rows sh), s_available_width sh)) su"

definition full_layout :: "(string \<times> int list \<times> int) list" where
  "full_layout =
     [(''office_a'', [1, 2, 3, 4, 5], 160),
      (''office_b'', [1, 2, 3, 4], 128),
      (''dining'', [1, 2, 3], 72),
      (''hallway'', [1, 2], 32),
      (''crate_h'', [1], 32),
      (''crate_v'', [1], 12)]"

text \<open>A row is consistent when its width is the sum of the widths of its entries and
  every entry carries the estimate for its record.\<close>

definition row_ok :: "row_usage \<Rightarrow> bool" where
  "row_ok r \<longleftrightarrow>
     r_width r = sum_list (map e_width (r_items r))
     \<and> (\<forall>e\<in>set (r_items r). e_width e = book_width (e_item e))"

definition rows_ok :: "usage \<Rightarrow> bool" where
  "rows_ok su \<longleftrightarrow> (\<forall>(shelf_id, sh)\<in>set su. \<forall>(row_num, row)\<in>set (s_rows sh). row_ok row)"

section \<open>Properties of the width estimate\<close>

text \<open>
  Claim C1. The estimated width follows the table of the specification: an absent or
  non-positive page count gives 1.0; otherwise up to 100 pages give 0.5, up to 200 give
  0.75, up to 300 give 1.0, up to 500 give 1.25, up to 750 give 1.5 and anything above
  gives 2.0, each boundary belonging to the lower band.
\<close>

theorem estimate_book_width_table:
  "estimate_book_width None = 1
   \<and> (p \<le> 0 \<longrightarrow> estimate_book_width (Some p) = 1)
   \<and> (0 < p \<and> p \<le> 100 \<longrightarrow> estimate_book_width (Some p) = 1 / 2)
   \<and> (100 < p \<and> p \<le> 200 \<longrightarrow> estimate_book_width (Some p) = 3 / 4)
   \<and> (200 < p \<and> p \<le> 300 \<longrightarrow> estimate_book_width (Some p) = 1)
   \<and> (300 < p \<and> p \<le> 500 \<longrightarrow> estimate_book_width (Some p) = 5 / 4)
   \<and> (500 < p \<and> p \<le> 750 \<longrightarrow> estimate_book_width (Some p) = 3 / 2)
   \<and> (750 < p \<longrightarrow> estimate_book_width (Some p) = 2)"
  by (simp add: estimate_book_width_def)

theorem estimate_book_width_table_witness:
  "estimate_book_width (Some 0) = 1
   \<and> estimate_book_width (Some 99) = 1 / 2
   \<and> estimate_book_width (Some 100) = 1 / 2
   \<and> estimate_book_width (Some 101) = 3 / 4
   \<and> estimate_book_width (Some 200) = 3 / 4
   \<and> estimate_book_width (Some 300) = 1
   \<and> estimate_book_width (Some 500) = 5 / 4
   \<and> estimate_book_width (Some 750) = 3 / 2
   \<and> estimate_book_width (Some 751) = 2"
  using estimate_book_width_table [of 0] estimate_book_width_table [of 99]
    estimate_book_width_table [of 100] estimate_book_width_table [of 101]
    estimate_book_width_table [of 200] estimate_book_width_table [of 300]
    estimate_book_width_table [of 500] estimate_book_width_table [of 750]
    estimate_book_width_table [of 751]
  by simp

text \<open>
  Claim C3, as amended. The estimate is non-decreasing on positive page counts: for
  \<open>0 < p \<le> q\<close> the width of \<open>p\<close> pages is at most the width of \<open>q\<close> pages. An absent
  or non-positive count gets the default 1.0, which is above the bands of 1 to 200
  pages, so the estimate is not monotonic across zero.
\<close>

theorem estimate_book_width_mono_positive:
  "0 < p \<Longrightarrow> p \<le> q \<Longrightarrow> estimate_book_width (Some p) \<le> estimate_book_width (Some q)"
  by (simp add: estimate_book_width_def)

theorem estimate_book_width_mono_positive_witness:
  "(0::int) < 100 \<and> (100::int) \<le> 101
   \<and> estimate_book_width (Some 100) \<le> estimate_book_width (Some 101)"
  using estimate_book_width_mono_positive [of 100 101] by simp

text \<open>Zero pages are estimated wider than fifty pages.\<close>

theorem estimate_book_width_not_monotonic:
  "(0::int) \<le> 50 \<and> \<not> estimate_book_width (Some 0) \<le> estimate_book_width (Some 50)"
  by (simp add: estimate_book_width_def)

section \<open>Evaluation lemmas\<close>

lemmas classify_defs = combined_text_def lower_or_empty_def lower_def lower_char_def any_in_def

lemma init_usage_eval:
  "init_usage =
     [(''office_a'',
        \<lparr>s_rows = map (\<lambda>n. (n, \<lparr>r_width = 0, r_items = []\<rparr>)) [1, 2, 3, 4, 5],
         s_total_width = 0, s_available_width = 160, s_utilization = 0\<rparr>),
      (''office_b'',
        \<lparr>s_rows = map (\<lambda>n. (n, \<lparr>r_width = 0, r_items = []\<rparr>)) [1, 2, 3, 4],
         s_total_width = 0, s_available_width = 128, s_utilization = 0\<rparr>),
      (''dining'',
        \<lparr>s_rows = map (\<lambda>n. (n, \<lparr>r_width = 0, r_items = []\<rparr>)) [1, 2, 3],
         s_total_width = 0, s_available_width = 72, s_utilization = 0\<rparr>),
      (''hallway'',
        \<lparr>s_rows = map (\<lambda>n. (n, \<lparr>r_width = 0, r_items = []\<rparr>)) [1, 2],
         s_total_width = 0, s_available_width = 32, s_utilization = 0\<rparr>),
      (''crate_h'',
        \<lparr>s_rows = map (\<lambda>n. (n, \<lparr>r_width = 0, r_items = []\<rparr>)) [1],
         s_total_width = 0, s_available_width = 32, s_utilization = 0\<rparr>),
      (''crate_v'',
        \<lparr>s_rows = map (\<lambda>n. (n, \<lparr>r_width = 0, r_items = []\<rparr>)) [1],
         s_total_width = 0, s_available_width = 12, s_utilization = 0\<rparr>)]"
  by (simp add: init_usage_def init_shelf_def SHELF_DIMENSIONS_def upto_rec1)

lemma py_int_250: "py_int ''250'' = Some 250"
  by (simp add: py_int_def strip_def is_space_def unsigned_int_def digit_value_def)

lemma binary64_5_4: "binary64 (5 / 4) = 5 / 4"
  by (simp add: binary64_def round_half_even_def normalize_mantissa.simps)

lemma binary64_125: "binary64 125 = 125"
  by (simp add: binary64_def round_half_even_def normalize_mantissa.simps)

lemma binary64_0: "binary64 0 = 0"
  by (simp add: binary64_def)

lemma py_int_800: "py_int ''800'' = Some 800"
  by (simp add: py_int_def strip_def is_space_def unsigned_int_def digit_value_def)

section \<open>End-to-end examples of classification\<close>

text \<open>
  Claim C4, as amended. A book record with title "Genki I" and 250 pages is classified
  to shelf office_a, row 1, by the classifier of the main flow (and by the default
  classifier), and its estimated width is 1.0 inch: 250 pages fall in the band above
  200 and up to 300 pages. Through \<open>iterative_balance\<close> the record lands in row 1 of
  office_a with that width.
\<close>

theorem genki_end_to_end:
  "balanced_categorize_book (PStr ''Genki I'') (PStr []) (PStr []) (PStr []) item = Inr (''office_a'', 1)
   \<and> categorize_book (PStr ''Genki I'') (PStr []) (PStr []) (PStr []) item = Inr (''office_a'', 1)
   \<and> estimate_book_width (Some 250) = 1
   \<and> (\<exists>su sh r e.
        iterative_balance
          [[''item_type'' \<mapsto> PStr ''book'', ''title'' \<mapsto> PStr ''Genki I'', ''length'' \<mapsto> PStr ''250'']]
          = Inr (su, 1)
        \<and> map_of su ''office_a'' = Some sh \<and> map_of (s_rows sh) 1 = Some r
        \<and> r_width r = 1 \<and> r_items r = [e] \<and> e_title e = PStr ''Genki I'' \<and> e_pages e = 250
        \<and> e_width e = 1)"
  by (simp add: balanced_categorize_book_def categorize_book_def balanced_rules_def categorize_rules_def
      classify_defs estimate_book_width_def iterative_balance_def calculate_space_usage_def
      add_item_def get_or_def item_pages_def py_int_250 place_def init_usage_eval shelf_totals_def add_to_row_def)

text \<open>The width of the "Genki I" record is not 0.75 inch.\<close>

theorem genki_width_counterexample:
  "\<not> (balanced_categorize_book (PStr ''Genki I'') (PStr []) (PStr []) (PStr [])
          [''item_type'' \<mapsto> PStr ''book'', ''title'' \<mapsto> PStr ''Genki I'', ''length'' \<mapsto> PStr ''250'']
        = Inr (''office_a'', 1)
      \<and> estimate_book_width (Some 250) = 3 / 4)"
  by (simp add: estimate_book_width_def)

text \<open>
  Claim C5, as amended. A book record with title "Unknown Mystery Novel" and no other
  text is classified to hallway row 2 by the default classifier \<open>categorize_book\<close>,
  whose literature rule is the first to match. The classifier of the main flow,
  \<open>balanced_categorize_book\<close>, sends it to hallway row 1: there the rule for fiction,
  novel and poetry is the first to match and names row 1. The main flow places the record in
  row 1 and leaves row 2 of the hallway empty.
\<close>

theorem mystery_novel_classification:
  "categorize_book (PStr ''Unknown Mystery Novel'') (PStr []) (PStr []) (PStr []) item = Inr (''hallway'', 2)
   \<and> balanced_categorize_book (PStr ''Unknown Mystery Novel'') (PStr []) (PStr []) (PStr []) item
       = Inr (''hallway'', 1)
   \<and> (\<exists>su sh r e.
        main_usage [Opened [Yield [''item_type'' \<mapsto> PStr ''book'', ''title'' \<mapsto> PStr ''Unknown Mystery Novel'']]]
          = Inr (su, 1)
        \<and> map_of su ''hallway'' = Some sh \<and> map_of (s_rows sh) 1 = Some r
        \<and> r_items r = [e] \<and> e_title e = PStr ''Unknown Mystery Novel''
        \<and> map_of (s_rows sh) 2 = Some \<lparr>r_width = 0, r_items = []\<rparr>)"
  by (simp add: balanced_categorize_book_def categorize_book_def balanced_rules_def categorize_rules_def
      classify_defs estimate_book_width_def iterative_balance_def calculate_space_usage_def
      add_item_def get_or_def item_pages_def place_def init_usage_eval shelf_totals_def add_to_row_def main_usage_def parse_csv_file_def recognized_def)

text \<open>The main-flow classifier does not answer hallway row 2 for this record.\<close>

theorem mystery_novel_counterexample:
  "balanced_categorize_book (PStr ''Unknown Mystery Novel'') (PStr []) (PStr []) (PStr [])
      [''item_type'' \<mapsto> PStr ''book'', ''title'' \<mapsto> PStr ''Unknown Mystery Novel'']
   \<noteq> Inr (''hallway'', 2)"
  by (simp add: balanced_categorize_book_def balanced_rules_def classify_defs)

section \<open>Errors while reading a file\<close>

lemma read_rows_yields:
  "read_rows acc (map Yield rows @ steps) = read_rows (acc @ filter recognized rows) steps"
  by (induction rows arbitrary: acc) auto

lemma ingest_concat:
  "ingest acc files = acc @ concat (map (\<lambda>f. fst (parse_csv_file f)) files)"
  by (induction files arbitrary: acc) auto

text \<open>
  Claim C7, as amended. A file that cannot be opened gives no records. A file whose
  reading raises after some rows gives exactly the recognized rows read before the
  error, and the error is logged; nothing after the error is read. The error does not
  leave \<open>parse_csv_file\<close>: the records of every file before and after the failing one
  appear in the concatenated result, in discovery order.
\<close>

theorem parse_csv_file_error:
  "parse_csv_file Unopenable = ([], True)
   \<and> parse_csv_file (Opened (map Yield rows @ Raise # rest)) = (filter recognized rows, True)
   \<and> parse_csv_file (Opened (map Yield rows)) = (filter recognized rows, False)
   \<and> ingest [] (files @ f # files')
       = ingest [] files @ fst (parse_csv_file f) @ ingest [] files'"
  using read_rows_yields [of "[]" rows "[]"]
  by (simp add: parse_csv_file_def read_rows_yields ingest_concat)

theorem parse_csv_file_error_witness:
  "parse_csv_file (Opened [Yield [''item_type'' \<mapsto> PStr ''book''], Yield [''item_type'' \<mapsto> PStr ''dvd''], Raise,
                           Yield [''item_type'' \<mapsto> PStr ''music'']])
     = ([[''item_type'' \<mapsto> PStr ''book'']], True)
   \<and> ingest [] [Unopenable, Opened [Yield [''item_type'' \<mapsto> PStr ''music'']]]
       = [[''item_type'' \<mapsto> PStr ''music'']]"
  using parse_csv_file_error
      [of "[[''item_type'' \<mapsto> PStr ''book''], [''item_type'' \<mapsto> PStr ''dvd'']]"
          "[Yield [''item_type'' \<mapsto> PStr ''music'']]"
          "[]" Unopenable "[Opened [Yield [''item_type'' \<mapsto> PStr ''music'']]]"]
  by (simp add: recognized_def parse_csv_file_def)

text \<open>A read error after one accepted row: the row is returned and the error is
  logged.\<close>

theorem parse_csv_file_partial_counterexample:
  "fst (parse_csv_file (Opened [Yield [''item_type'' \<mapsto> PStr ''book'', ''title'' \<mapsto> PStr ''Genki I''], Raise]))
     \<noteq> []
   \<and> snd (parse_csv_file (Opened [Yield [''item_type'' \<mapsto> PStr ''book'', ''title'' \<mapsto> PStr ''Genki I''], Raise]))"
  by (simp add: parse_csv_file_def recognized_def)

section \<open>Outcome of a capture\<close>






text \<open>The boolean of \<^verbatim>\<open>save_screenshot\<close> is discarded: an image that could not be
  written is not noticed.\<close>

lemma capture_screenshot_unwritten:
  "capture_screenshot
     \<lparr>b_print = (\<lambda>msg. Returns), b_chrome = Returns, b_get = Returns, b_until = Returns,
      b_sleep = Returns, b_save_screenshot = SaveReturns False, b_quit = Returns\<rparr> 20 = Inr True"
  by (simp add: capture_screenshot_def try_block_def)

section \<open>Invariants of the space calculator\<close>

subsection \<open>Updating a stored value\<close>

lemma map_fst_modify_at: "map fst (modify_at k f al) = map fst al"
  by (induction al) auto

lemma sum_modify_at:
  fixes F :: "'k \<times> 'v \<Rightarrow> 'm::comm_monoid_add"
  assumes "map_of al k = Some v" and "F (k, f v) = F (k, v) + d"
  shows "(\<Sum>p\<leftarrow>modify_at k f al. F p) = (\<Sum>p\<leftarrow>al. F p) + d"
  using assms by (induction al) (auto simp add: ac_simps)

lemma all_modify_at:
  assumes "\<forall>p\<in>set al. Q p" and "\<And>v. Q (k, v) \<Longrightarrow> Q (k, f v)"
  shows "\<forall>p\<in>set (modify_at k f al). Q p"
  using assms by (induction al) (auto split: if_splits)

lemma map_modify_at_same:
  assumes "\<And>v. h (k, f v) = h (k, v)"
  shows "map h (modify_at k f al) = map h al"
  using assms by (induction al) auto

subsection \<open>Placing one entry\<close>

lemma place_sum:
  fixes g :: "row_usage \<Rightarrow> 'm::comm_monoid_add"
  assumes placed: "place su shelf_id row_num e = Inr su'"
    and step: "\<And>r. g (add_to_row e r) = g r + d"
  shows "(\<Sum>(sid, sh)\<leftarrow>su'. \<Sum>(n, r)\<leftarrow>s_rows sh. g r) = (\<Sum>(sid, sh)\<leftarrow>su. \<Sum>(n, r)\<leftarrow>s_rows sh. g r) + d"
proof -
  from placed obtain sh r where sh: "map_of su shelf_id = Some sh"
    and r: "map_of (s_rows sh) row_num = Some r"
    and su': "su' = modify_at shelf_id
                (\<lambda>sh. sh\<lparr>s_rows := modify_at row_num (add_to_row e) (s_rows sh)\<rparr>) su"
    by (auto simp add: place_def split: option.splits)
  have rows: "(\<Sum>(n, r)\<leftarrow>modify_at row_num (add_to_row e) (s_rows sh). g r)
                = (\<Sum>(n, r)\<leftarrow>s_rows sh. g r) + d"
    by (rule sum_modify_at [OF r]) (simp add: step)
  show ?thesis
    unfolding su' by (rule sum_modify_at [OF sh]) (simp add: rows)
qed

lemma place_all:
  assumes placed: "place su shelf_id row_num e = Inr su'"
    and inv: "\<forall>(sid, sh)\<in>set su. \<forall>(n, r)\<in>set (s_rows sh). P r"
    and step: "\<And>r. P r \<Longrightarrow> P (add_to_row e r)"
  shows "\<forall>(sid, sh)\<in>set su'. \<forall>(n, r)\<in>set (s_rows sh). P r"
proof -
  from placed have su': "su' = modify_at shelf_id
                (\<lambda>sh. sh\<lparr>s_rows := modify_at row_num (add_to_row e) (s_rows sh)\<rparr>) su"
    by (auto simp add: place_def split: option.splits)
  show ?thesis
    unfolding su'
  proof (rule all_modify_at [OF inv])
    fix sh
    assume "case (shelf_id, sh) of (sid, sh) \<Rightarrow> \<forall>(n, r)\<in>set (s_rows sh). P r"
    then have "\<forall>p\<in>set (s_rows sh). case p of (n, r) \<Rightarrow> P r" by simp
    then have "\<forall>p\<in>set (modify_at row_num (add_to_row e) (s_rows sh)). case p of (n, r) \<Rightarrow> P r"
      by (rule all_modify_at) (simp add: step)
    then show "case (shelf_id, sh\<lparr>s_rows := modify_at row_num (add_to_row e) (s_rows sh)\<rparr>) of
                 (sid, sh) \<Rightarrow> \<forall>(n, r)\<in>set (s_rows sh). P r"
      by simp
  qed
qed

lemma place_layout:
  assumes "place su shelf_id row_num e = Inr su'"
  shows "layout su' = layout su"
proof -
  from assms have su': "su' = modify_at shelf_id
                (\<lambda>sh. sh\<lparr>s_rows := modify_at row_num (add_to_row e) (s_rows sh)\<rparr>) su"
    by (auto simp add: place_def split: option.splits)
  show ?thesis
    unfolding su' layout_def
    by (rule map_modify_at_same) (simp add: map_fst_modify_at)
qed

lemma map_of_layout:
  "map_of (layout su) shelf_id
     = map_option (\<lambda>sh. (map fst (s_rows sh), s_available_width sh)) (map_of su shelf_id)"
  by (induction su) (auto simp add: layout_def)

lemma place_returns:
  assumes "map_of (layout su) shelf_id = Some (rows, avail)" and "row_num \<in> set rows"
  shows "\<exists>su'. place su shelf_id row_num e = Inr su'"
proof -
  from assms(1) obtain sh where sh: "map_of su shelf_id = Some sh" and "rows = map fst (s_rows sh)"
    by (auto simp add: map_of_layout)
  with assms(2) have "row_num \<in> fst ` set (s_rows sh)" by simp
  then obtain r where "map_of (s_rows sh) row_num = Some r"
    by (metis map_of_eq_None_iff not_None_eq)
  with sh show ?thesis by (simp add: place_def)
qed



subsection \<open>One record\<close>

lemma add_item_cases:
  assumes "add_item categorizer_func su item = Inr su'"
  shows "(\<not> is_book item \<and> su' = su)
         \<or> (is_book item
             \<and> (\<exists>shelf_id row_num e. place su shelf_id row_num e = Inr su'
                    \<and> e_width e = book_width item \<and> e_item e = item))"
proof (cases "is_book item")
  case False
  with assms show ?thesis
    by (auto simp add: add_item_def is_book_def split: option.splits)
next
  case True
  let ?e = "\<lparr>e_title = get_or item ''title'' (PStr ''Unknown''),
             e_author = get_or item ''creators'' (PStr ''Unknown''),
             e_pages = item_pages item,
             e_width = estimate_book_width (Some (item_pages item)),
             e_item = item\<rparr>"
  from True assms obtain shelf_id row_num where "place su shelf_id row_num ?e = Inr su'"
    by (auto simp add: add_item_def is_book_def Let_def split: sum.splits prod.splits)
  moreover have "e_width ?e = book_width item \<and> e_item ?e = item"
    by (simp add: book_width_def)
  ultimately show ?thesis
    using True by blast
qed

lemma add_item_width:
  assumes "add_item categorizer_func su item = Inr su'"
  shows "total_row_width su' = total_row_width su + (if is_book item then book_width item else 0)"
proof (cases "is_book item")
  case False
  with add_item_cases [OF assms] show ?thesis by simp
next
  case True
  with add_item_cases [OF assms] obtain shelf_id row_num e
    where placed: "place su shelf_id row_num e = Inr su'" and w: "e_width e = book_width item"
    by blast
  have "total_row_width su' = total_row_width su + e_width e"
    unfolding total_row_width_def
    by (rule place_sum [OF placed]) (simp add: add_to_row_def)
  with True w show ?thesis by simp
qed

lemma placed_entries_mset:
  "mset (map e_item (placed_entries su))
     = (\<Sum>(shelf_id, sh)\<leftarrow>su. \<Sum>(row_num, row)\<leftarrow>s_rows sh. mset (map e_item (r_items row)))"
proof -
  have rows: "mset (map e_item (concat (map (\<lambda>(row_num, row). r_items row) rs)))
                = (\<Sum>(row_num, row)\<leftarrow>rs. mset (map e_item (r_items row)))" for rs :: "(int \<times> row_usage) list"
    by (induction rs) (auto simp del: mset_map)
  show ?thesis
    unfolding placed_entries_def
    by (induction su) (auto simp add: rows simp del: mset_map)
qed

lemma add_item_entries:
  assumes "add_item categorizer_func su item = Inr su'"
  shows "mset (map e_item (placed_entries su'))
           = mset (map e_item (placed_entries su)) + (if is_book item then {#item#} else {#})"
proof (cases "is_book item")
  case False
  with add_item_cases [OF assms] show ?thesis by simp
next
  case True
  with add_item_cases [OF assms] obtain shelf_id row_num e
    where placed: "place su shelf_id row_num e = Inr su'" and i: "e_item e = item"
    by blast
  have "mset (map e_item (placed_entries su')) = mset (map e_item (placed_entries su)) + {#e_item e#}"
    unfolding placed_entries_mset
    by (rule place_sum [OF placed]) (simp add: add_to_row_def)
  with True i show ?thesis by simp
qed

lemma add_item_rows_ok:
  assumes "add_item categorizer_func su item = Inr su'" and "rows_ok su"
  shows "rows_ok su'"
proof (cases "is_book item")
  case False
  with add_item_cases [OF assms(1)] assms(2) show ?thesis by simp
next
  case True
  with add_item_cases [OF assms(1)] obtain shelf_id row_num e
    where placed: "place su shelf_id row_num e = Inr su'" and w: "e_width e = book_width item"
      and i: "e_item e = item"
    by blast
  show ?thesis
    unfolding rows_ok_def
    by (rule place_all [OF placed assms(2) [unfolded rows_ok_def]])
       (simp add: row_ok_def add_to_row_def w i)
qed

lemma add_item_layout:
  assumes "add_item categorizer_func su item = Inr su'"
  shows "layout su' = layout su"
  using add_item_cases [OF assms] by (auto simp add: place_layout)

subsection \<open>The loop over the records\<close>

lemma add_items_width:
  "add_items categorizer_func su items = Inr su' \<Longrightarrow>
     total_row_width su' = total_row_width su + (\<Sum>item\<leftarrow>filter is_book items. book_width item)"
proof (induction items arbitrary: su)
  case Nil
  then show ?case by simp
next
  case (Cons item items)
  then obtain su1 where one: "add_item categorizer_func su item = Inr su1"
    and rest: "add_items categorizer_func su1 items = Inr su'"
    by (auto split: sum.splits)
  show ?case
    using Cons.IH [OF rest] add_item_width [OF one] by simp
qed

lemma add_items_entries:
  "add_items categorizer_func su items = Inr su' \<Longrightarrow>
     mset (map e_item (placed_entries su'))
       = mset (map e_item (placed_entries su)) + mset (filter is_book items)"
proof (induction items arbitrary: su)
  case Nil
  then show ?case by simp
next
  case (Cons item items)
  then obtain su1 where one: "add_item categorizer_func su item = Inr su1"
    and rest: "add_items categorizer_func su1 items = Inr su'"
    by (auto split: sum.splits)
  show ?case
    using Cons.IH [OF rest] add_item_entries [OF one] by simp
qed

lemma add_items_rows_ok:
  "add_items categorizer_func su items = Inr su' \<Longrightarrow> rows_ok su \<Longrightarrow> rows_ok su'"
proof (induction items arbitrary: su)
  case Nil
  then show ?case by simp
next
  case (Cons item items)
  then obtain su1 where one: "add_item categorizer_func su item = Inr su1"
    and rest: "add_items categorizer_func su1 items = Inr su'"
    by (auto split: sum.splits)
  show ?case
    using Cons.IH [OF rest] add_item_rows_ok [OF one Cons.prems(2)] by simp
qed

lemma add_items_layout:
  "add_items categorizer_func su items = Inr su' \<Longrightarrow> layout su' = layout su"
proof (induction items arbitrary: su)
  case Nil
  then show ?case by simp
next
  case (Cons item items)
  then obtain su1 where one: "add_item categorizer_func su item = Inr su1"
    and rest: "add_items categorizer_func su1 items = Inr su'"
    by (auto split: sum.splits)
  show ?case
    using Cons.IH [OF rest] add_item_layout [OF one] by simp
qed

subsection \<open>Totals\<close>

lemma shelf_totals_Inr:
  assumes "shelf_totals sh = Inr sh'"
  shows "s_rows sh' = s_rows sh \<and> s_available_width sh' = s_available_width sh
         \<and> s_available_width sh \<noteq> 0
         \<and> s_total_width sh' = (\<Sum>(row_num, row)\<leftarrow>s_rows sh. r_width row)
         \<and> s_utilization sh'
             = binary64 (binary64 (s_total_width sh' / of_int (s_available_width sh)) * 100)"
  using assms by (auto simp add: shelf_totals_def Let_def split: if_splits)

lemma totals_views:
  "totals su = Inr su' \<Longrightarrow>
     total_row_width su' = total_row_width su \<and> placed_entries su' = placed_entries su
     \<and> layout su' = layout su \<and> rows_ok su' = rows_ok su"
proof (induction su arbitrary: su')
  case Nil
  then show ?case by simp
next
  case (Cons p su)
  obtain shelf_id sh where p: "p = (shelf_id, sh)" by (cases p)
  from Cons.prems p obtain sh' su1 where sh': "shelf_totals sh = Inr sh'"
    and su1: "totals su = Inr su1" and su': "su' = (shelf_id, sh') # su1"
    by (auto split: sum.splits)
  note ih = Cons.IH [OF su1]
  note kept = shelf_totals_Inr [OF sh']
  have "total_row_width su' = total_row_width (p # su)"
    using ih kept by (simp add: total_row_width_def p su')
  moreover have "placed_entries su' = placed_entries (p # su)"
    using ih kept by (simp add: placed_entries_def p su')
  moreover have "layout su' = layout (p # su)"
    using ih kept by (simp add: layout_def p su')
  moreover have "rows_ok su' = rows_ok (p # su)"
    using ih kept by (simp add: rows_ok_def p su')
  ultimately show ?case by simp
qed

lemma totals_each:
  "totals su = Inr su' \<Longrightarrow>
     \<forall>(shelf_id, sh)\<in>set su'.
        s_available_width sh \<noteq> 0
        \<and> s_total_width sh = (\<Sum>(row_num, row)\<leftarrow>s_rows sh. r_width row)
        \<and> s_utilization sh
            = binary64 (binary64 (s_total_width sh / of_int (s_available_width sh)) * 100)"
proof (induction su arbitrary: su')
  case Nil
  then show ?case by simp
next
  case (Cons p su)
  obtain shelf_id sh where p: "p = (shelf_id, sh)" by (cases p)
  from Cons.prems p obtain sh' su1 where sh': "shelf_totals sh = Inr sh'"
    and su1: "totals su = Inr su1" and su': "su' = (shelf_id, sh') # su1"
    by (auto split: sum.splits)
  show ?case
    using Cons.IH [OF su1] shelf_totals_Inr [OF sh'] by (simp add: su')
qed

lemma totals_returns:
  "\<forall>(shelf_id, rows, avail)\<in>set (layout su). avail \<noteq> 0 \<Longrightarrow> \<exists>su'. totals su = Inr su'"
  by (induction su) (auto simp add: layout_def shelf_totals_def Let_def)

lemma totals_error:
  "totals su = Inl e \<Longrightarrow> e = ZeroDivisionError \<and> (\<exists>(shelf_id, rows, avail)\<in>set (layout su). avail = 0)"
  by (induction su) (auto simp add: layout_def shelf_totals_def Let_def split: sum.splits if_splits)

subsection \<open>The initial dictionary\<close>

lemma init_usage_views:
  "total_row_width init_usage = 0" "placed_entries init_usage = []"
  "layout init_usage = full_layout" "rows_ok init_usage"
  by (simp_all add: init_usage_eval total_row_width_def placed_entries_def layout_def
      full_layout_def rows_ok_def row_ok_def)

lemma full_layout_available: "\<forall>(shelf_id, rows, avail)\<in>set full_layout. 0 < avail"
  by (simp add: full_layout_def)

subsection \<open>The classifiers answer configured rows\<close>

lemma categorize_rules_slot:
  "\<exists>rows avail. map_of full_layout (fst (categorize_rules c)) = Some (rows, avail)
                 \<and> snd (categorize_rules c) \<in> set rows"
  by (simp add: categorize_rules_def full_layout_def)

lemma balanced_rules_slot:
  "\<exists>rows avail. map_of full_layout (fst (balanced_rules c)) = Some (rows, avail)
                 \<and> snd (balanced_rules c) \<in> set rows"
  by (simp add: balanced_rules_def full_layout_def)

lemma classifier_slot:
  assumes "categorizer_func \<in> {categorize_book, balanced_categorize_book}"
    and "categorizer_func title tags grp description item = Inr (shelf_id, row_num)"
  shows "\<exists>rows avail. map_of full_layout shelf_id = Some (rows, avail) \<and> row_num \<in> set rows"
proof -
  from assms have "\<exists>c. categorize_rules c = (shelf_id, row_num) \<or> balanced_rules c = (shelf_id, row_num)"
    by (auto simp add: categorize_book_def balanced_categorize_book_def split: sum.splits)
  then obtain c where "categorize_rules c = (shelf_id, row_num) \<or> balanced_rules c = (shelf_id, row_num)" ..
  then show ?thesis
    using categorize_rules_slot [of c] balanced_rules_slot [of c]
    by (metis fst_conv snd_conv)
qed

lemma classifier_returns:
  assumes "categorizer_func \<in> {categorize_book, balanced_categorize_book}"
  shows "\<exists>slot. categorizer_func (PStr t) tags grp description item = Inr slot"
  using assms by (auto simp add: categorize_book_def balanced_categorize_book_def combined_text_def)

lemma classifier_error:
  assumes "categorizer_func \<in> {categorize_book, balanced_categorize_book}"
    and "categorizer_func title tags grp description item = Inl e"
  shows "e = AttributeError"
  using assms
  by (auto simp add: categorize_book_def balanced_categorize_book_def combined_text_def
      split: sum.splits pyval.splits)


subsection \<open>When the calculator returns\<close>

lemma add_item_returns:
  assumes cat: "categorizer_func \<in> {categorize_book, balanced_categorize_book}"
    and wf: "well_formed item" and lay: "layout su = full_layout"
  shows "\<exists>su'. add_item categorizer_func su item = Inr su'"
proof (cases "is_book item")
  case False
  with wf show ?thesis
    by (auto simp add: add_item_def well_formed_def is_book_def)
next
  case True
  with wf obtain t where t: "get_or item ''title'' (PStr []) = PStr t"
    by (cases "item ''title''"; cases "get_or item ''title'' (PStr [])")
       (auto simp add: well_formed_def get_or_def)
  from classifier_returns [OF cat] obtain shelf_id row_num
    where slot: "categorizer_func (PStr t) (get_or item ''tags'' (PStr []))
                   (get_or item ''group'' (PStr [])) (get_or item ''description'' (PStr [])) item
                 = Inr (shelf_id, row_num)"
    by (metis surj_pair)
  from classifier_slot [OF cat slot] lay obtain rows avail
    where "map_of (layout su) shelf_id = Some (rows, avail)" and "row_num \<in> set rows"
    by auto
  from place_returns [OF this] show ?thesis
    using True t slot by (simp add: add_item_def is_book_def Let_def)
qed

lemma add_items_returns:
  assumes cat: "categorizer_func \<in> {categorize_book, balanced_categorize_book}"
  shows "list_all well_formed items \<Longrightarrow> layout su = full_layout \<Longrightarrow>
           \<exists>su'. add_items categorizer_func su items = Inr su'"
proof (induction items arbitrary: su)
  case Nil
  then show ?case by simp
next
  case (Cons item items)
  from Cons.prems have wf: "well_formed item" and rest: "list_all well_formed items"
    by simp_all
  from add_item_returns [OF cat wf Cons.prems(2)] obtain su1
    where one: "add_item categorizer_func su item = Inr su1" ..
  with Cons.prems(2) have "layout su1 = full_layout"
    by (simp add: add_item_layout)
  from Cons.IH [OF rest this] one show ?case by simp
qed

lemma calculate_space_usage_Inr:
  assumes "calculate_space_usage items categorizer_func = Inr su"
  obtains su0 where "add_items categorizer_func init_usage items = Inr su0" and "totals su0 = Inr su"
  using assms by (auto simp add: calculate_space_usage_def split: sum.splits)

lemma calculate_space_usage_returns:
  assumes cat: "categorizer_func \<in> {categorize_book, balanced_categorize_book}"
    and wf: "list_all well_formed items"
  shows "\<exists>su. calculate_space_usage items categorizer_func = Inr su"
proof -
  from add_items_returns [OF cat wf init_usage_views(3)] obtain su0
    where su0: "add_items categorizer_func init_usage items = Inr su0" ..
  then have "layout su0 = full_layout"
    by (simp add: add_items_layout init_usage_views)
  with full_layout_available have "\<forall>(shelf_id, rows, avail)\<in>set (layout su0). avail \<noteq> 0"
    by auto
  from totals_returns [OF this] su0 show ?thesis
    by (simp add: calculate_space_usage_def)
qed

lemma calculate_space_usage_layout:
  assumes "calculate_space_usage items categorizer_func = Inr su"
  shows "layout su = full_layout"
proof -
  from assms obtain su0 where "add_items categorizer_func init_usage items = Inr su0"
    and "totals su0 = Inr su"
    by (rule calculate_space_usage_Inr)
  then show ?thesis
    by (simp add: totals_views add_items_layout init_usage_views)
qed

lemma add_items_error:
  "add_items categorizer_func su items = Inl e \<Longrightarrow>
     e = KeyError \<or> (\<exists>title tags grp description item.
                        categorizer_func title tags grp description item = Inl e)"
proof (induction items arbitrary: su)
  case Nil
  then show ?case by simp
next
  case (Cons item items)
  show ?case
  proof (cases "add_item categorizer_func su item")
    case (Inl e')
    with Cons.prems have "e' = e" by simp
    with Inl show ?thesis
      by (auto simp add: add_item_def place_def Let_def
          split: option.splits if_splits sum.splits prod.splits)
  next
    case (Inr su1)
    with Cons.prems have "add_items categorizer_func su1 items = Inl e" by simp
    from Cons.IH [OF this] show ?thesis .
  qed
qed

lemma no_division_by_zero:
  assumes "\<And>title tags grp description item.
             categorizer_func title tags grp description item \<noteq> Inl ZeroDivisionError"
  shows "calculate_space_usage items categorizer_func \<noteq> Inl ZeroDivisionError"
proof
  assume raised: "calculate_space_usage items categorizer_func = Inl ZeroDivisionError"
  show False
  proof (cases "add_items categorizer_func init_usage items")
    case (Inl e)
    with raised have "e = ZeroDivisionError"
      by (simp add: calculate_space_usage_def)
    with add_items_error [OF Inl] assms show False by auto
  next
    case (Inr su0)
    with raised have "totals su0 = Inl ZeroDivisionError"
      by (simp add: calculate_space_usage_def)
    from totals_error [OF this] obtain shelf_id rows
      where "(shelf_id, rows, 0) \<in> set (layout su0)" by auto
    moreover from Inr have "layout su0 = full_layout"
      by (simp add: add_items_layout init_usage_views)
    ultimately show False
      using full_layout_available by auto
  qed
qed

lemma add_item_non_book: "non_book item \<Longrightarrow> add_item categorizer_func su item = Inr su"
  by (auto simp add: non_book_def add_item_def split: option.splits)

lemma add_items_filter:
  "add_items categorizer_func su (filter (\<lambda>item. \<not> non_book item) items)
     = add_items categorizer_func su items"
  by (induction items arbitrary: su) (auto simp add: add_item_non_book split: sum.splits)

section \<open>Properties of the space calculator\<close>

text \<open>
  Claim C2. Whenever \<open>calculate_space_usage\<close> returns, with any classifier, the row
  widths summed over all shelves and rows equal the sum of the estimated widths of the
  book records, and so do the shelf totals. The records stored in the rows are, as a
  multiset, exactly the book records of the input: no book is lost and none is stored
  in two rows. Every row's width is the sum of its entries' widths. With either
  classifier of the program the function returns on every list whose records have a
  kind and whose books have a title that is not \<^verbatim>\<open>None\<close>.
\<close>

theorem row_widths_account_for_books:
  "(calculate_space_usage items categorizer_func = Inr su \<longrightarrow>
       total_row_width su = (\<Sum>item\<leftarrow>filter is_book items. book_width item)
     \<and> (\<Sum>(shelf_id, sh)\<leftarrow>su. s_total_width sh) = (\<Sum>item\<leftarrow>filter is_book items. book_width item)
     \<and> mset (map e_item (placed_entries su)) = mset (filter is_book items)
     \<and> rows_ok su)
   \<and> (list_all well_formed items
        \<and> categorizer_func \<in> {categorize_book, balanced_categorize_book} \<longrightarrow>
        (\<exists>su. calculate_space_usage items categorizer_func = Inr su))"
proof (intro conjI impI)
  assume ret: "calculate_space_usage items categorizer_func = Inr su"
  then obtain su0 where loop: "add_items categorizer_func init_usage items = Inr su0"
    and fin: "totals su0 = Inr su"
    by (rule calculate_space_usage_Inr)
  show rows: "total_row_width su = (\<Sum>item\<leftarrow>filter is_book items. book_width item)"
    using add_items_width [OF loop] totals_views [OF fin] by (simp add: init_usage_views)
  have "\<forall>(shelf_id, sh)\<in>set su. s_total_width sh = (\<Sum>(row_num, row)\<leftarrow>s_rows sh. r_width row)"
    using totals_each [OF fin] by auto
  then have "(\<Sum>(shelf_id, sh)\<leftarrow>su. s_total_width sh) = total_row_width su"
    unfolding total_row_width_def by (intro arg_cong [where f = sum_list] map_cong) auto
  with rows show "(\<Sum>(shelf_id, sh)\<leftarrow>su. s_total_width sh) = (\<Sum>item\<leftarrow>filter is_book items. book_width item)"
    by simp
  show "mset (map e_item (placed_entries su)) = mset (filter is_book items)"
    using add_items_entries [OF loop] totals_views [OF fin] by (simp add: init_usage_views)
  show "rows_ok su"
    using add_items_rows_ok [OF loop] totals_views [OF fin] by (simp add: init_usage_views)
next
  assume "list_all well_formed items \<and> categorizer_func \<in> {categorize_book, balanced_categorize_book}"
  then show "\<exists>su. calculate_space_usage items categorizer_func = Inr su"
    using calculate_space_usage_returns by blast
qed

theorem row_widths_account_for_books_witness:
  "\<exists>su. calculate_space_usage
           [[''item_type'' \<mapsto> PStr ''book'', ''title'' \<mapsto> PStr ''Genki I'', ''length'' \<mapsto> PStr ''250''],
            [''item_type'' \<mapsto> PStr ''videogame'', ''title'' \<mapsto> PStr ''Chess Master''],
            [''item_type'' \<mapsto> PStr ''book'', ''title'' \<mapsto> PStr ''A Long Novel'', ''length'' \<mapsto> PStr ''800'']]
           balanced_categorize_book = Inr su
        \<and> total_row_width su = 3
        \<and> mset (map e_item (placed_entries su))
            = {#[''item_type'' \<mapsto> PStr ''book'', ''title'' \<mapsto> PStr ''Genki I'', ''length'' \<mapsto> PStr ''250''],
                [''item_type'' \<mapsto> PStr ''book'', ''title'' \<mapsto> PStr ''A Long Novel'', ''length'' \<mapsto> PStr ''800'']#}"
proof -
  let ?genki = "[''item_type'' \<mapsto> PStr ''book'', ''title'' \<mapsto> PStr ''Genki I'', ''length'' \<mapsto> PStr ''250'']"
  let ?game = "[''item_type'' \<mapsto> PStr ''videogame'', ''title'' \<mapsto> PStr ''Chess Master'']"
  let ?novel = "[''item_type'' \<mapsto> PStr ''book'', ''title'' \<mapsto> PStr ''A Long Novel'', ''length'' \<mapsto> PStr ''800'']"
  let ?items = "[?genki, ?game, ?novel]"
  note claim = row_widths_account_for_books [of ?items balanced_categorize_book]
  have wf: "list_all well_formed ?items"
    by (simp add: well_formed_def is_book_def)
  with claim obtain su where su: "calculate_space_usage ?items balanced_categorize_book = Inr su"
    by blast
  have books: "filter is_book ?items = [?genki, ?novel]"
    by (simp add: is_book_def)
  have widths: "book_width ?genki = 1" "book_width ?novel = 2"
    by (simp_all add: book_width_def item_pages_def py_int_250 py_int_800 estimate_book_width_def)
  from claim [of su] su have "total_row_width su = (\<Sum>item\<leftarrow>filter is_book ?items. book_width item)"
    and "mset (map e_item (placed_entries su)) = mset (filter is_book ?items)"
    by blast+
  with su show ?thesis
    unfolding books by (simp add: widths)
qed

text \<open>
  Whatever \<open>calculate_space_usage\<close> returns has an entry for each of the six configured
  shelves, with the rows 1 to the shelf's row count and a positive available width.
  With either classifier of the program the division by zero is never reached, and
  the function returns on every list whose records have a kind and whose books have a
  title that is not \<^verbatim>\<open>None\<close>; it returns on the empty list with any classifier.
\<close>

lemma calculate_space_usage_shelves:
  "(calculate_space_usage items categorizer_func = Inr su \<longrightarrow>
       layout su = full_layout
     \<and> (\<forall>(shelf_id, sh)\<in>set su.
           0 < s_available_width sh
           \<and> s_utilization sh
               = binary64 (binary64 (s_total_width sh / of_int (s_available_width sh)) * 100)))
   \<and> (list_all well_formed items
        \<and> categorizer_func \<in> {categorize_book, balanced_categorize_book} \<longrightarrow>
        (\<exists>su. calculate_space_usage items categorizer_func = Inr su))
   \<and> (categorizer_func \<in> {categorize_book, balanced_categorize_book} \<longrightarrow>
        calculate_space_usage items categorizer_func \<noteq> Inl ZeroDivisionError)
   \<and> (\<exists>su. calculate_space_usage [] categorizer_func = Inr su)"
proof (intro conjI impI)
  assume ret: "calculate_space_usage items categorizer_func = Inr su"
  then show lay: "layout su = full_layout"
    by (rule calculate_space_usage_layout)
  from ret obtain su0 where fin: "totals su0 = Inr su"
    by (rule calculate_space_usage_Inr)
  have "\<forall>(shelf_id, sh)\<in>set su. (shelf_id, map fst (s_rows sh), s_available_width sh) \<in> set (layout su)"
    by (auto simp add: layout_def)
  with lay full_layout_available have "\<forall>(shelf_id, sh)\<in>set su. 0 < s_available_width sh"
    by fastforce
  with totals_each [OF fin]
  show "\<forall>(shelf_id, sh)\<in>set su.
           0 < s_available_width sh
           \<and> s_utilization sh
               = binary64 (binary64 (s_total_width sh / of_int (s_available_width sh)) * 100)"
    by fastforce
next
  assume "list_all well_formed items \<and> categorizer_func \<in> {categorize_book, balanced_categorize_book}"
  then show "\<exists>su. calculate_space_usage items categorizer_func = Inr su"
    using calculate_space_usage_returns by blast
next
  assume cat: "categorizer_func \<in> {categorize_book, balanced_categorize_book}"
  show "calculate_space_usage items categorizer_func \<noteq> Inl ZeroDivisionError"
  proof (rule no_division_by_zero)
    fix title tags grp description item
    show "categorizer_func title tags grp description item \<noteq> Inl ZeroDivisionError"
      using classifier_error [OF cat, of title tags grp description item ZeroDivisionError]
      by auto
  qed
next
  have "\<forall>(shelf_id, rows, avail)\<in>set (layout init_usage). avail \<noteq> 0"
    using full_layout_available by (auto simp add: init_usage_views)
  from totals_returns [OF this] show "\<exists>su. calculate_space_usage [] categorizer_func = Inr su"
    by (simp add: calculate_space_usage_def)
qed

text \<open>
  Claim C9 says that \<open>calculate_space_usage\<close> returns an entry for every shelf on every
  list of input records. It does not on a book record whose title is \<^verbatim>\<open>None\<close>, which is
  what \<^verbatim>\<open>csv.DictReader\<close> yields for a row that ends after its first column: both
  classifiers call \<^verbatim>\<open>title.lower()\<close> unguarded and raise AttributeError, where the
  other three text fields are guarded by \<^verbatim>\<open>x.lower() if x else ""\<close>. The main flow
  stops with the same error, after a good row and such a short row.
\<close>

theorem calculate_space_usage_short_row:
  "calculate_space_usage
     [[''item_type'' \<mapsto> PStr ''book'', ''title'' \<mapsto> PNone, ''creators'' \<mapsto> PNone,
       ''tags'' \<mapsto> PNone, ''group'' \<mapsto> PNone, ''description'' \<mapsto> PNone, ''length'' \<mapsto> PNone]]
     categorize_book = Inl AttributeError
   \<and> calculate_space_usage
     [[''item_type'' \<mapsto> PStr ''book'', ''title'' \<mapsto> PNone, ''creators'' \<mapsto> PNone,
       ''tags'' \<mapsto> PNone, ''group'' \<mapsto> PNone, ''description'' \<mapsto> PNone, ''length'' \<mapsto> PNone]]
     balanced_categorize_book = Inl AttributeError
   \<and> main_usage
     [Opened
        [Yield [''item_type'' \<mapsto> PStr ''book'', ''title'' \<mapsto> PStr ''Genki I'',
                ''creators'' \<mapsto> PStr ''Banno'', ''tags'' \<mapsto> PStr [], ''group'' \<mapsto> PStr [],
                ''description'' \<mapsto> PStr [], ''length'' \<mapsto> PStr ''250''],
         Yield [''item_type'' \<mapsto> PStr ''book'', ''title'' \<mapsto> PNone, ''creators'' \<mapsto> PNone,
                ''tags'' \<mapsto> PNone, ''group'' \<mapsto> PNone, ''description'' \<mapsto> PNone,
                ''length'' \<mapsto> PNone]]]
     = Inl AttributeError"
  by (simp add: calculate_space_usage_def add_item_def get_or_def categorize_book_def
      balanced_categorize_book_def balanced_rules_def classify_defs main_usage_def
      iterative_balance_def parse_csv_file_def recognized_def item_pages_def py_int_250
      estimate_book_width_def place_def init_usage_eval add_to_row_def)

text \<open>
  Claim C10. Records of another kind than book are skipped without being classified:
  with any classifier, the result of \<open>calculate_space_usage\<close>, errors included, is the
  result on the list without its non-book records. When every record has a kind, that
  list consists of the book records.
\<close>

theorem non_books_ignored:
  "calculate_space_usage (filter (\<lambda>item. \<not> non_book item) items) categorizer_func
     = calculate_space_usage items categorizer_func
   \<and> (list_all (\<lambda>item. item ''item_type'' \<noteq> None) items \<longrightarrow>
        calculate_space_usage (filter is_book items) categorizer_func
          = calculate_space_usage items categorizer_func)"
proof (intro conjI impI)
  show first: "calculate_space_usage (filter (\<lambda>item. \<not> non_book item) items) categorizer_func
     = calculate_space_usage items categorizer_func"
    by (simp add: calculate_space_usage_def add_items_filter)
  assume "list_all (\<lambda>item. item ''item_type'' \<noteq> None) items"
  then have "filter is_book items = filter (\<lambda>item. \<not> non_book item) items"
    by (intro filter_cong) (auto simp add: list_all_iff is_book_def non_book_def)
  with first show "calculate_space_usage (filter is_book items) categorizer_func
          = calculate_space_usage items categorizer_func"
    by simp
qed

theorem non_books_ignored_witness:
  "calculate_space_usage
     [[''item_type'' \<mapsto> PStr ''book'', ''title'' \<mapsto> PStr ''Genki I'']] balanced_categorize_book
   = calculate_space_usage
       [[''item_type'' \<mapsto> PStr ''videogame'', ''title'' \<mapsto> PStr ''Chess Master''],
        [''item_type'' \<mapsto> PStr ''book'', ''title'' \<mapsto> PStr ''Genki I''],
        [''item_type'' \<mapsto> PStr ''music'', ''title'' \<mapsto> PNone]] balanced_categorize_book"
proof -
  let ?items = "[[''item_type'' \<mapsto> PStr ''videogame'', ''title'' \<mapsto> PStr ''Chess Master''],
        [''item_type'' \<mapsto> PStr ''book'', ''title'' \<mapsto> PStr ''Genki I''],
        [''item_type'' \<mapsto> PStr ''music'', ''title'' \<mapsto> PNone]]"
  have kinds: "list_all (\<lambda>item. item ''item_type'' \<noteq> None) ?items"
    by simp
  have "filter is_book ?items = [[''item_type'' \<mapsto> PStr ''book'', ''title'' \<mapsto> PStr ''Genki I'']]"
    by (simp add: is_book_def)
  with non_books_ignored [of ?items balanced_categorize_book] kinds show ?thesis
    by simp
qed

section \<open>Bands of the utilization banner\<close>

lemma map_of_banners:
  "map_of (banners su) shelf_id
     = (if shelf_id \<in> fst ` set ORGANIZATION then Some (status_class (shelf_utilization su shelf_id))
        else None)"
proof -
  have "map_of (map (\<lambda>(k, v). (k, f k)) xs) k = (if k \<in> fst ` set xs then Some (f k) else None)"
    for f :: "string \<Rightarrow> string" and xs :: "(string \<times> (int \<times> string) list) list" and k
    by (induction xs) auto
  then show ?thesis
    by (simp only: banners_def)
qed

lemma organization_shelves:
  "map fst ORGANIZATION = map fst full_layout"
  by (simp add: ORGANIZATION_def full_layout_def)

text \<open>
  Claim C6. Every shelf gets one banner, and the banner is the band of the utilization
  \<open>u\<close> computed for that shelf: "over capacity" exactly when \<open>u > 90\<close>, "near
  capacity" exactly when \<open>75 < u \<le> 90\<close>, and "good capacity" exactly when
  \<open>u \<le> 75\<close>. In a result of \<open>calculate_space_usage\<close> the utilization of a shelf is
  its total width divided by its available width, times 100, in floating point, and
  its banner is the band of that number. The hallway has 32 inches available; with 40
  inches assigned its utilization is 125 and its banner is "over capacity".
\<close>

theorem utilization_bands:
  "(status_class u = ''over-capacity'' \<longleftrightarrow> 90 < u)
   \<and> (status_class u = ''near-capacity'' \<longleftrightarrow> 75 < u \<and> u \<le> 90)
   \<and> (status_class u = ''good-capacity'' \<longleftrightarrow> u \<le> 75)
   \<and> map fst (banners su) = [''office_a'', ''office_b'', ''dining'', ''hallway'', ''crate_h'', ''crate_v'']
   \<and> (map_of su shelf_id = Some sh \<and> shelf_id \<in> fst ` set ORGANIZATION \<longrightarrow>
        map_of (banners su) shelf_id = Some (status_class (s_utilization sh)))
   \<and> (calculate_space_usage items categorizer_func = Inr su \<and> map_of su shelf_id = Some sh \<longrightarrow>
        s_total_width sh = (\<Sum>(row_num, row)\<leftarrow>s_rows sh. r_width row)
        \<and> s_utilization sh
            = binary64 (binary64 (s_total_width sh / of_int (s_available_width sh)) * 100)
        \<and> map_of (banners su) shelf_id = Some (status_class (s_utilization sh)))
   \<and> (calculate_space_usage items categorizer_func = Inr su \<and> map_of su ''hallway'' = Some sh
        \<and> s_total_width sh = 40 \<longrightarrow>
        s_available_width sh = 32 \<and> s_utilization sh = 125
        \<and> map_of (banners su) ''hallway'' = Some ''over-capacity'')"
proof -
  have bands: "(status_class u = ''over-capacity'' \<longleftrightarrow> 90 < u)
      \<and> (status_class u = ''near-capacity'' \<longleftrightarrow> 75 < u \<and> u \<le> 90)
      \<and> (status_class u = ''good-capacity'' \<longleftrightarrow> u \<le> 75)"
    by (simp add: status_class_def)
  have shelves: "map fst (banners su)
      = [''office_a'', ''office_b'', ''dining'', ''hallway'', ''crate_h'', ''crate_v'']"
    by (simp add: banners_def ORGANIZATION_def)
  have link: "map_of (banners su) shelf_id = Some (status_class (s_utilization sh))"
    if "map_of su shelf_id = Some sh" and "shelf_id \<in> fst ` set ORGANIZATION" for shelf_id sh
    using that by (simp add: map_of_banners shelf_utilization_def)
  have run: "s_total_width sh = (\<Sum>(row_num, row)\<leftarrow>s_rows sh. r_width row)
        \<and> s_utilization sh
            = binary64 (binary64 (s_total_width sh / of_int (s_available_width sh)) * 100)
        \<and> map_of (banners su) shelf_id = Some (status_class (s_utilization sh))
        \<and> map_of full_layout shelf_id = Some (map fst (s_rows sh), s_available_width sh)"
    if ret: "calculate_space_usage items categorizer_func = Inr su"
      and sh: "map_of su shelf_id = Some sh" for shelf_id sh
  proof -
    from ret obtain su0 where fin: "totals su0 = Inr su"
      by (rule calculate_space_usage_Inr)
    from ret have lay: "layout su = full_layout"
      by (rule calculate_space_usage_layout)
    from sh have mem: "(shelf_id, sh) \<in> set su"
      by (rule map_of_SomeD)
    with totals_each [OF fin]
    have "s_total_width sh = (\<Sum>(row_num, row)\<leftarrow>s_rows sh. r_width row)"
      and "s_utilization sh
            = binary64 (binary64 (s_total_width sh / of_int (s_available_width sh)) * 100)"
      by auto
    moreover have "map fst su = map fst (layout su)"
      by (simp add: layout_def comp_def split_beta)
    with mem lay have "shelf_id \<in> fst ` set ORGANIZATION"
      by (metis organization_shelves image_eqI fst_conv set_map)
    with sh have "map_of (banners su) shelf_id = Some (status_class (s_utilization sh))"
      by (rule link)
    moreover have "map_of full_layout shelf_id = Some (map fst (s_rows sh), s_available_width sh)"
      using map_of_layout [of su shelf_id] sh lay by simp
    ultimately show ?thesis by simp
  qed
  have hallway: "s_available_width sh = 32 \<and> s_utilization sh = 125
        \<and> map_of (banners su) ''hallway'' = Some ''over-capacity''"
    if ret: "calculate_space_usage items categorizer_func = Inr su"
      and sh: "map_of su ''hallway'' = Some sh" and filled: "s_total_width sh = 40"
  proof -
    note facts = run [OF ret sh]
    from facts have avail: "s_available_width sh = 32"
      by (simp add: full_layout_def)
    with facts filled have "s_utilization sh = 125"
      by (simp add: binary64_5_4 binary64_125)
    with facts avail show ?thesis
      by (simp add: status_class_def)
  qed
  from bands shelves link run hallway show ?thesis
    by blast
qed

theorem utilization_bands_witness:
  "\<exists>su. calculate_space_usage
           (replicate 20 [''item_type'' \<mapsto> PStr ''book'', ''title'' \<mapsto> PStr ''A Long Novel'',
                          ''length'' \<mapsto> PStr ''800''])
           balanced_categorize_book = Inr su
        \<and> shelf_utilization su ''hallway'' = 125
        \<and> map_of (banners su) ''hallway'' = Some ''over-capacity''
        \<and> status_class 90 = ''near-capacity'' \<and> status_class 75 = ''good-capacity''"
proof -
  let ?novel = "[''item_type'' \<mapsto> PStr ''book'', ''title'' \<mapsto> PStr ''A Long Novel'',
                 ''length'' \<mapsto> PStr ''800'']"
  let ?e = "\<lparr>e_title = PStr ''A Long Novel'', e_author = PStr ''Unknown'', e_pages = 800,
             e_width = 2, e_item = ?novel\<rparr>"
  have one: "add_item balanced_categorize_book su ?novel = place su ''hallway'' 1 ?e" for su
    by (simp add: add_item_def get_or_def balanced_categorize_book_def balanced_rules_def
        classify_defs item_pages_def py_int_800 estimate_book_width_def)
  have twenty: "replicate 20 ?novel
      = [?novel, ?novel, ?novel, ?novel, ?novel, ?novel, ?novel, ?novel, ?novel, ?novel,
         ?novel, ?novel, ?novel, ?novel, ?novel, ?novel, ?novel, ?novel, ?novel, ?novel]"
    by (simp add: numeral_eq_Suc)
  have "\<exists>su sh. calculate_space_usage (replicate 20 ?novel) balanced_categorize_book = Inr su
          \<and> map_of su ''hallway'' = Some sh \<and> s_total_width sh = 40"
    unfolding twenty
    by (simp add: calculate_space_usage_def one place_def init_usage_eval add_to_row_def
        shelf_totals_def)
  then obtain su sh
    where ret: "calculate_space_usage (replicate 20 ?novel) balanced_categorize_book = Inr su"
      and sh: "map_of su ''hallway'' = Some sh" and filled: "s_total_width sh = 40"
    by blast
  note claim = utilization_bands [of _ su "''hallway''" sh "replicate 20 ?novel" balanced_categorize_book]
  from claim [of 0] ret sh filled
  have "s_utilization sh = 125" and "map_of (banners su) ''hallway'' = Some ''over-capacity''"
    by blast+
  moreover from claim [of 90] have "status_class 90 = ''near-capacity''" by simp
  moreover from claim [of 75] have "status_class 75 = ''good-capacity''" by simp
  ultimately show ?thesis
    using ret sh by (auto simp add: shelf_utilization_def)
qed

end
